theory Spec2Isabelle
  imports Main "HOL-Library.Word"
begin

section \<open>The antenna selector sketch (transco\_select.ino)\<close>

text \<open>
  An Arduino MEGA drives eight antenna relays from a Nextion touch display on Serial3.
  The sketch is single threaded: \<open>setup\<close> runs once, then \<open>loop\<close> calls
  \<open>recevoirEvenementsNextion\<close> and \<open>gererTemporisations\<close> for ever.
  The embedding passes the globals of the sketch and the hardware it writes (output pins,
  EEPROM, the bytes sent on Serial3) as one record.
\<close>

subsection \<open>Constants\<close>

type_synonym u8 = "8 word"
type_synonym i8 = "8 word" \<comment> \<open>\<open>int8_t\<close>: the same eight bits, read with \<open>sint\<close>\<close>
type_synonym u32 = "32 word" \<comment> \<open>\<open>unsigned long\<close> on the AVR\<close>

definition NB_ANTENNES :: u8 where
  "NB_ANTENNES = 8"

definition FIRST_BTN_ID :: u8 where
  "FIRST_BTN_ID = 2"

definition EEPROM_MAGIC_ADDR :: u8 where
  "EEPROM_MAGIC_ADDR = 0"

definition EEPROM_SELECTED_ADDR :: u8 where
  "EEPROM_SELECTED_ADDR = 1"

definition EEPROM_MAGIC_VALUE :: u8 where
  "EEPROM_MAGIC_VALUE = 0xA5"

definition relayPins :: "u8 list" where
  "relayPins = [22, 23, 24, 25, 26, 27, 28, 29]"

text \<open>The values the counter of \<open>for (uint8_t i = 0; i < NB_ANTENNES; i++)\<close> takes, in order.\<close>

definition antennes :: "u8 list" where
  "antennes = map word_of_nat [0 ..< unat NB_ANTENNES]"

subsection \<open>State\<close>

text \<open>
  \<open>relayOffTime\<close>, \<open>antenneSelectionnee\<close> are the globals of the sketch; \<open>pos\<close> and
  \<open>buffer\<close> are the static locals of \<open>recevoirEvenementsNextion\<close>. The rest is the
  hardware: \<open>pinModes\<close> (True for OUTPUT) and \<open>pins\<close> (True for HIGH) by pin number,
  \<open>pinWrites\<close> the calls of \<open>digitalWrite\<close> made so far (oldest first), \<open>eeprom\<close> the
  EEPROM cells by address, \<open>serial3\<close> the bytes transmitted to the display so far.
\<close>

record machine =
  relayOffTime :: "u32 list"
  antenneSelectionnee :: i8
  pos :: u8
  buffer :: "u8 list"
  pinModes :: "u8 \<Rightarrow> bool"
  pins :: "u8 \<Rightarrow> bool"
  pinWrites :: "(u8 \<times> bool) list"
  eeprom :: "nat \<Rightarrow> u8"
  serial3 :: string

text \<open>
  The arrays have a fixed size in the sketch (\<open>relayOffTime[NB_ANTENNES]\<close>, \<open>buffer[7]\<close>) and
  \<open>buffer[pos++]\<close> is only executed with \<open>pos < 7\<close>. The states of the model that are states
  of the sketch are the ones below.
\<close>

definition wf :: "machine \<Rightarrow> bool" where
  "wf s \<longleftrightarrow> length (relayOffTime s) = 8 \<and> length (buffer s) = 7 \<and> pos s < 7"

text \<open>
  The state when \<open>setup\<close> is entered: the initialisers of the globals (\<open>relayOffTime = {0}\<close>,
  \<open>antenneSelectionnee = -1\<close>, zeroed statics), every pin an input at LOW, nothing sent yet;
  the EEPROM holds whatever it held (\<open>e\<close>).
\<close>

definition boot :: "(nat \<Rightarrow> u8) \<Rightarrow> machine" where
  "boot e = \<lparr> relayOffTime = replicate 8 0, antenneSelectionnee = - 1, pos = 0,
     buffer = replicate 7 0, pinModes = (\<lambda>_. False), pins = (\<lambda>_. False), pinWrites = [],
     eeprom = e, serial3 = [] \<rparr>"

subsection \<open>Hardware primitives\<close>

definition pinMode :: "u8 \<Rightarrow> bool \<Rightarrow> machine \<Rightarrow> machine" where
  "pinMode pin m s = s\<lparr>pinModes := (pinModes s)(pin := m)\<rparr>"

definition digitalWrite :: "u8 \<Rightarrow> bool \<Rightarrow> machine \<Rightarrow> machine" where
  "digitalWrite pin v s =
     s\<lparr>pins := (pins s)(pin := v), pinWrites := pinWrites s @ [(pin, v)]\<rparr>"

text \<open>\<open>EEPROM.update\<close> writes the cell only when its content differs.\<close>

definition EEPROM_update :: "u8 \<Rightarrow> u8 \<Rightarrow> machine \<Rightarrow> machine" where
  "EEPROM_update a v s =
     (if eeprom s (unat a) = v then s else s\<lparr>eeprom := (eeprom s)(unat a := v)\<rparr>)"

definition EEPROM_read :: "u8 \<Rightarrow> machine \<Rightarrow> u8" where
  "EEPROM_read a s = eeprom s (unat a)"

definition Serial3_write :: "string \<Rightarrow> machine \<Rightarrow> machine" where
  "Serial3_write bs s = s\<lparr>serial3 := serial3 s @ bs\<rparr>"

text \<open>\<open>Serial3.print\<close> of a \<open>uint8_t\<close> sends its decimal digits, most significant first.\<close>

fun printNumber :: "nat \<Rightarrow> string" where
  "printNumber n =
     (if n < 10 then [char_of (48 + n)]
      else printNumber (n div 10) @ [char_of (48 + n mod 10)])"

declare printNumber.simps [simp del]

subsection \<open>Indicators\<close>

definition setBoutonOffBytes :: "u8 \<Rightarrow> string" where
  "setBoutonOffBytes index =
     ''bt'' @ printNumber (unat index) @ ''.val=0'' @ [CHR 0xFF, CHR 0xFF, CHR 0xFF]"

definition setBoutonOnBytes :: "u8 \<Rightarrow> string" where
  "setBoutonOnBytes index =
     ''bt'' @ printNumber (unat index) @ ''.val=1'' @ [CHR 0xFF, CHR 0xFF, CHR 0xFF]"

definition setBoutonOff :: "u8 \<Rightarrow> machine \<Rightarrow> machine" where
  "setBoutonOff index s = Serial3_write (setBoutonOffBytes index) s"

definition setBoutonOn :: "u8 \<Rightarrow> machine \<Rightarrow> machine" where
  "setBoutonOn index s = Serial3_write (setBoutonOnBytes index) s"

subsection \<open>Exclusivity and the timeout scan\<close>

definition exclusivite_body :: "u8 \<Rightarrow> u8 \<Rightarrow> machine \<Rightarrow> machine" where
  "exclusivite_body actif i s =
     (if i \<noteq> actif then
        (let s1 = digitalWrite (relayPins ! unat i) False s;
             s2 = s1\<lparr>relayOffTime := (relayOffTime s1)[unat i := 0]\<rparr>
         in setBoutonOff i s2)
      else s)"

definition exclusivite :: "u8 \<Rightarrow> machine \<Rightarrow> machine" where
  "exclusivite actif s = fold (exclusivite_body actif) antennes s"

text \<open>\<open>now\<close> is the value \<open>millis()\<close> returns on entry.\<close>

definition gererTemporisations_body :: "u32 \<Rightarrow> u8 \<Rightarrow> machine \<Rightarrow> machine" where
  "gererTemporisations_body now i s =
     (if relayOffTime s ! unat i \<noteq> 0 \<and> now \<ge> relayOffTime s ! unat i then
        (let s1 = digitalWrite (relayPins ! unat i) False s
         in s1\<lparr>relayOffTime := (relayOffTime s1)[unat i := 0]\<rparr>)
      else s)"

definition gererTemporisations :: "u32 \<Rightarrow> machine \<Rightarrow> machine" where
  "gererTemporisations now s = fold (gererTemporisations_body now) antennes s"

subsection \<open>The durable selection\<close>

definition sauvegarderSelection :: "u8 \<Rightarrow> machine \<Rightarrow> machine" where
  "sauvegarderSelection idx s =
     EEPROM_update EEPROM_SELECTED_ADDR idx
       (EEPROM_update EEPROM_MAGIC_ADDR EEPROM_MAGIC_VALUE s)"

definition lireSelectionEEPROM :: "machine \<Rightarrow> i8" where
  "lireSelectionEEPROM s =
     (let magic = EEPROM_read EEPROM_MAGIC_ADDR s in
      if magic \<noteq> EEPROM_MAGIC_VALUE then - 1
      else
        (let val = EEPROM_read EEPROM_SELECTED_ADDR s in
         if val \<ge> NB_ANTENNES then - 1 else val))"

subsection \<open>Touch events\<close>

text \<open>
  Lines 147 to 162, the branch taken for a button of the window: \<open>idx\<close> is the antenna index,
  \<open>now\<close> the value \<open>millis()\<close> returns at line 162.
\<close>

definition selectionner :: "u8 \<Rightarrow> u32 \<Rightarrow> machine \<Rightarrow> machine" where
  "selectionner idx now s =
     (let s1 = exclusivite idx s;
          s2 = setBoutonOn idx s1;
          s3 = s2\<lparr>antenneSelectionnee := idx\<rparr>;
          s4 = sauvegarderSelection idx s3;
          s5 = digitalWrite (relayPins ! unat idx) True s4
      in s5\<lparr>relayOffTime := (relayOffTime s5)[unat idx := now + 2000]\<rparr>)"

text \<open>Lines 134 to 165: what is done with a full window of seven bytes.\<close>

definition traiterTrame :: "u32 \<Rightarrow> machine \<Rightarrow> machine" where
  "traiterTrame now s =
     (if buffer s ! 0 = 0x65 \<and> buffer s ! 4 = 0xFF \<and> buffer s ! 5 = 0xFF \<and> buffer s ! 6 = 0xFF then
        (let page = buffer s ! 1; compId = buffer s ! 2 in
         if page = 0 then
           (if compId \<ge> FIRST_BTN_ID \<and> unat compId < unat FIRST_BTN_ID + unat NB_ANTENNES then
              selectionner (compId - FIRST_BTN_ID) now s
            else s)
         else s)
      else s)"

text \<open>
  One turn of the \<open>while (Serial3.available())\<close> loop, for the byte \<open>c\<close> read; \<open>now\<close> is
  what \<open>millis()\<close> returns during that turn.
\<close>

definition octetNextion :: "u8 \<Rightarrow> u32 \<Rightarrow> machine \<Rightarrow> machine" where
  "octetNextion c now s =
     (if pos s = 0 \<and> c \<noteq> 0x65 then s
      else
        (let s1 = s\<lparr>buffer := (buffer s)[unat (pos s) := c], pos := pos s + 1\<rparr> in
         if pos s1 \<ge> 7 then (traiterTrame now s1)\<lparr>pos := 0\<rparr> else s1))"

text \<open>The call consumes the bytes available on Serial3, each with the clock of its turn.\<close>

fun recevoirEvenementsNextion :: "(u8 \<times> u32) list \<Rightarrow> machine \<Rightarrow> machine" where
  "recevoirEvenementsNextion [] s = s"
| "recevoirEvenementsNextion ((c, now) # rx) s =
     recevoirEvenementsNextion rx (octetNextion c now s)"

subsection \<open>Setup and loop\<close>

definition setup_body :: "u8 \<Rightarrow> machine \<Rightarrow> machine" where
  "setup_body i s = digitalWrite (relayPins ! unat i) False (pinMode (relayPins ! unat i) True s)"

definition setup_ino :: "machine \<Rightarrow> machine" where
  "setup_ino s =
     (let s1 = fold setup_body antennes s;
          s2 = s1\<lparr>antenneSelectionnee := lireSelectionEEPROM s1\<rparr>
      in if 0 \<le> sint (antenneSelectionnee s2) \<and> sint (antenneSelectionnee s2) < sint NB_ANTENNES
         then setBoutonOn (antenneSelectionnee s2) (exclusivite (antenneSelectionnee s2) s2)
         else s2)"

definition loop :: "(u8 \<times> u32) list \<Rightarrow> u32 \<Rightarrow> machine \<Rightarrow> machine" where
  "loop rx now s = gererTemporisations now (recevoirEvenementsNextion rx s)"

text \<open>
  The sketch after \<open>setup\<close>: any sequence of calls of the two functions of \<open>loop\<close>, each
  with the bytes it finds on Serial3 or the clock it reads.
\<close>

datatype appel = Recevoir "(u8 \<times> u32) list" | Gerer u32

fun executer_appel :: "appel \<Rightarrow> machine \<Rightarrow> machine" where
  "executer_appel (Recevoir rx) s = recevoirEvenementsNextion rx s"
| "executer_appel (Gerer now) s = gererTemporisations now s"

definition executer :: "appel list \<Rightarrow> machine \<Rightarrow> machine" where
  "executer appels s = fold executer_appel appels s"

subsection \<open>Observations\<close>

text \<open>The frame the display sends for a touch event, and the same with a clock for each byte.\<close>

definition trame :: "u8 \<Rightarrow> u8 \<Rightarrow> u8 \<Rightarrow> u8 list" where
  "trame page compId st = [0x65, page, compId, st, 0xFF, 0xFF, 0xFF]"

definition trameRecue :: "u8 \<Rightarrow> u8 \<Rightarrow> u8 \<Rightarrow> u32 list \<Rightarrow> (u8 \<times> u32) list" where
  "trameRecue page compId st ts = zip (trame page compId st) ts"

text \<open>The three bytes that end a command to the display.\<close>

definition terminateur :: string where
  "terminateur = [CHR 0xFF, CHR 0xFF, CHR 0xFF]"

text \<open>The guard of the scan, for the clock \<open>now\<close> and a stored deadline \<open>d\<close>.\<close>

definition expired :: "u32 \<Rightarrow> u32 \<Rightarrow> bool" where
  "expired now d \<longleftrightarrow> d \<noteq> 0 \<and> now \<ge> d"

text \<open>The relay of antenna \<open>i\<close> is energised when its pin is HIGH.\<close>

definition relais :: "machine \<Rightarrow> u8 \<Rightarrow> bool" where
  "relais s i = pins s (relayPins ! unat i)"

definition nbRelaisActifs :: "machine \<Rightarrow> nat" where
  "nbRelaisActifs s = length (filter (relais s) antennes)"

text \<open>
  Only the selection branch writes HIGH to a pin, once each time it runs: the HIGH writes
  to the pin of antenna \<open>k\<close> count the selections of \<open>k\<close> performed so far.
\<close>

definition nbSelections :: "u8 \<Rightarrow> machine \<Rightarrow> nat" where
  "nbSelections k s = length (filter (\<lambda>w. w = (relayPins ! unat k, True)) (pinWrites s))"

text \<open>What \<open>exclusivite actif\<close> followed by \<open>setBoutonOn actif\<close> sends to the display.\<close>

definition commandesSelection :: "u8 \<Rightarrow> string" where
  "commandesSelection actif =
     concat (map setBoutonOffBytes (filter (\<lambda>i. i \<noteq> actif) antennes)) @ setBoutonOnBytes actif"

section \<open>Basic facts\<close>

lemma antennes_eq: "antennes = [0, 1, 2, 3, 4, 5, 6, 7]"
  by (simp add: antennes_def NB_ANTENNES_def upt_rec)

lemma loop_executer: "loop rx now s = executer [Recevoir rx, Gerer now] s"
  by (simp add: loop_def executer_def)

lemma relayPins_distinct: "distinct relayPins"
  by (simp add: relayPins_def)

lemma u8_less_8_cases:
  fixes k :: u8
  assumes "k < 8"
  shows "k = 0 \<or> k = 1 \<or> k = 2 \<or> k = 3 \<or> k = 4 \<or> k = 5 \<or> k = 6 \<or> k = 7"
proof -
  have "unat k < 8" using assms by (simp add: word_less_nat_alt)
  then have "unat k = 0 \<or> unat k = 1 \<or> unat k = 2 \<or> unat k = 3 \<or> unat k = 4 \<or> unat k = 5
      \<or> unat k = 6 \<or> unat k = 7"
    by arith
  moreover have "k = word_of_nat (unat k)" by simp
  ultimately show ?thesis
    by (elim disjE) simp_all
qed

lemma sint_small: "(k::u8) < 8 \<Longrightarrow> sint k = int (unat k)"
  using u8_less_8_cases [of k] by auto

subsection \<open>The loops as updates of the fields\<close>

lemma fold_exclusivite_body:
  "fold (exclusivite_body a) is s =
     s\<lparr>relayOffTime := fold (\<lambda>i t. t[unat i := 0]) (filter (\<lambda>i. i \<noteq> a) is) (relayOffTime s),
       pins := fold (\<lambda>i p. p(relayPins ! unat i := False)) (filter (\<lambda>i. i \<noteq> a) is) (pins s),
       pinWrites := pinWrites s @ map (\<lambda>i. (relayPins ! unat i, False)) (filter (\<lambda>i. i \<noteq> a) is),
       serial3 := serial3 s @ concat (map setBoutonOffBytes (filter (\<lambda>i. i \<noteq> a) is))\<rparr>"
  by (induction "is" arbitrary: s)
     (simp_all add: exclusivite_body_def digitalWrite_def setBoutonOff_def Serial3_write_def Let_def)

lemma fold_clear_length [simp]:
  "length (fold (\<lambda>i t. t[unat i := (0::u32)]) js t) = length t"
  by (induction js arbitrary: t) simp_all

lemma fold_clear_nth:
  "j < length t \<Longrightarrow>
     fold (\<lambda>i t. t[unat i := (0::u32)]) js t ! j = (if j \<in> unat ` set js then 0 else t ! j)"
  by (induction js arbitrary: t) (auto simp add: nth_list_update)

lemma fold_low_apply:
  "fold (\<lambda>i p. p(relayPins ! unat i := False)) js p q =
     (if q \<in> (\<lambda>i. relayPins ! unat i) ` set js then False else p q)"
  by (induction js arbitrary: p) auto

text \<open>The scan: fields it leaves alone, and what it does to the pins.\<close>

lemma gerer_body_other:
  "antenneSelectionnee (gererTemporisations_body now i s) = antenneSelectionnee s"
  "pos (gererTemporisations_body now i s) = pos s"
  "buffer (gererTemporisations_body now i s) = buffer s"
  "pinModes (gererTemporisations_body now i s) = pinModes s"
  "eeprom (gererTemporisations_body now i s) = eeprom s"
  "serial3 (gererTemporisations_body now i s) = serial3 s"
  "length (relayOffTime (gererTemporisations_body now i s)) = length (relayOffTime s)"
  by (simp_all add: gererTemporisations_body_def digitalWrite_def Let_def)

lemma fold_gerer_other:
  "antenneSelectionnee (fold (gererTemporisations_body now) is s) = antenneSelectionnee s"
  "pos (fold (gererTemporisations_body now) is s) = pos s"
  "buffer (fold (gererTemporisations_body now) is s) = buffer s"
  "pinModes (fold (gererTemporisations_body now) is s) = pinModes s"
  "eeprom (fold (gererTemporisations_body now) is s) = eeprom s"
  "serial3 (fold (gererTemporisations_body now) is s) = serial3 s"
  "length (relayOffTime (fold (gererTemporisations_body now) is s)) = length (relayOffTime s)"
  by (induction "is" arbitrary: s) (simp_all add: gerer_body_other)

lemma expired_0 [simp]: "\<not> expired now 0"
  by (simp add: expired_def)

lemma gerer_body_pins:
  "pins (gererTemporisations_body now i s) =
     (if expired now (relayOffTime s ! unat i) then (pins s)(relayPins ! unat i := False) else pins s)"
  by (simp add: gererTemporisations_body_def digitalWrite_def Let_def expired_def)

lemma gerer_body_writes:
  "pinWrites (gererTemporisations_body now i s) =
     (if expired now (relayOffTime s ! unat i) then pinWrites s @ [(relayPins ! unat i, False)]
      else pinWrites s)"
  by (simp add: gererTemporisations_body_def digitalWrite_def Let_def expired_def)

lemma gerer_body_deadline:
  "j < length (relayOffTime s) \<Longrightarrow>
   relayOffTime (gererTemporisations_body now i s) ! j =
     (if j = unat i \<and> expired now (relayOffTime s ! j) then 0 else relayOffTime s ! j)"
  by (auto simp add: gererTemporisations_body_def digitalWrite_def Let_def expired_def nth_list_update)

lemma fold_gerer_pins_mono:
  "pins (fold (gererTemporisations_body now) is s) p \<Longrightarrow> pins s p"
proof (induction "is" arbitrary: s)
  case Nil
  then show ?case by simp
next
  case (Cons i "is")
  then have "pins (gererTemporisations_body now i s) p" by simp
  then show ?case by (simp add: gerer_body_pins split: if_splits)
qed

lemma fold_gerer_writes_low:
  "set (pinWrites (fold (gererTemporisations_body now) is s)) \<subseteq> set (pinWrites s) \<union> {w. \<not> snd w}"
proof (induction "is" arbitrary: s)
  case Nil
  then show ?case by simp
next
  case (Cons i "is")
  have "set (pinWrites (gererTemporisations_body now i s)) \<subseteq> set (pinWrites s) \<union> {w. \<not> snd w}"
    by (auto simp add: gerer_body_writes)
  with Cons.IH [of "gererTemporisations_body now i s"] show ?case by auto
qed

lemma fold_gerer_deadline:
  "j < length (relayOffTime s) \<Longrightarrow>
   relayOffTime (fold (gererTemporisations_body now) is s) ! j =
     (if j \<in> unat ` set is \<and> expired now (relayOffTime s ! j) then 0 else relayOffTime s ! j)"
proof (induction "is" arbitrary: s)
  case Nil
  then show ?case by simp
next
  case (Cons i "is")
  let ?s' = "gererTemporisations_body now i s"
  have "j < length (relayOffTime ?s')" using Cons.prems by (simp add: gerer_body_other)
  from Cons.IH [OF this] show ?case
    using Cons.prems by (auto simp add: gerer_body_deadline)
qed

lemma fold_gerer_pins:
  "\<forall>i\<in>set is. unat i < length (relayOffTime s) \<Longrightarrow>
   pins (fold (gererTemporisations_body now) is s) p =
     (if \<exists>i\<in>set is. relayPins ! unat i = p \<and> expired now (relayOffTime s ! unat i) then False
      else pins s p)"
proof (induction "is" arbitrary: s)
  case Nil
  then show ?case by simp
next
  case (Cons i "is")
  let ?s' = "gererTemporisations_body now i s"
  have len: "length (relayOffTime ?s') = length (relayOffTime s)"
    by (simp add: gerer_body_other)
  have ih: "pins (fold (gererTemporisations_body now) is ?s') p =
     (if \<exists>i\<in>set is. relayPins ! unat i = p \<and> expired now (relayOffTime ?s' ! unat i) then False
      else pins ?s' p)"
    using Cons.prems by (intro Cons.IH) (simp add: len)
  have dl: "\<And>k. k \<in> set is \<Longrightarrow> relayOffTime ?s' ! unat k =
     (if unat k = unat i \<and> expired now (relayOffTime s ! unat k) then 0 else relayOffTime s ! unat k)"
    using Cons.prems by (simp add: gerer_body_deadline)
  show ?case
    unfolding fold_simps ih
    by (auto simp add: dl gerer_body_pins)
qed

subsection \<open>The selection branch\<close>

lemma relayPins_antennes: "relayPins = map (\<lambda>i. relayPins ! unat i) antennes"
  by (simp add: antennes_eq relayPins_def)

lemma EEPROM_update_eq: "EEPROM_update a v s = s\<lparr>eeprom := (eeprom s)(unat a := v)\<rparr>"
proof (cases "eeprom s (unat a) = v")
  case True
  then have "(eeprom s)(unat a := v) = eeprom s" by auto
  then show ?thesis using True by (simp add: EEPROM_update_def)
next
  case False
  then show ?thesis by (simp add: EEPROM_update_def)
qed

lemma sauvegarderSelection_eq:
  "sauvegarderSelection idx s = s\<lparr>eeprom := (eeprom s)(0 := 0xA5, 1 := idx)\<rparr>"
  by (simp add: sauvegarderSelection_def EEPROM_update_eq EEPROM_MAGIC_ADDR_def
      EEPROM_SELECTED_ADDR_def EEPROM_MAGIC_VALUE_def)

lemma exclusivite_eq:
  "exclusivite a s =
     s\<lparr>relayOffTime := fold (\<lambda>i t. t[unat i := 0]) (filter (\<lambda>i. i \<noteq> a) antennes) (relayOffTime s),
       pins := fold (\<lambda>i p. p(relayPins ! unat i := False)) (filter (\<lambda>i. i \<noteq> a) antennes) (pins s),
       pinWrites := pinWrites s @ map (\<lambda>i. (relayPins ! unat i, False)) (filter (\<lambda>i. i \<noteq> a) antennes),
       serial3 := serial3 s @ concat (map setBoutonOffBytes (filter (\<lambda>i. i \<noteq> a) antennes))\<rparr>"
  by (simp add: exclusivite_def fold_exclusivite_body)

lemma selectionner_eq:
  "selectionner idx now s =
     s\<lparr>relayOffTime :=
         (fold (\<lambda>i t. t[unat i := 0]) (filter (\<lambda>i. i \<noteq> idx) antennes) (relayOffTime s))
           [unat idx := now + 2000],
       antenneSelectionnee := idx,
       pins := (fold (\<lambda>i p. p(relayPins ! unat i := False)) (filter (\<lambda>i. i \<noteq> idx) antennes) (pins s))
           (relayPins ! unat idx := True),
       pinWrites := pinWrites s @
           map (\<lambda>i. (relayPins ! unat i, False)) (filter (\<lambda>i. i \<noteq> idx) antennes) @
           [(relayPins ! unat idx, True)],
       eeprom := (eeprom s)(0 := 0xA5, 1 := idx),
       serial3 := serial3 s @ commandesSelection idx\<rparr>"
  by (simp add: selectionner_def exclusivite_eq sauvegarderSelection_eq setBoutonOn_def
      Serial3_write_def digitalWrite_def commandesSelection_def Let_def)

lemma at_most_one:
  assumes "distinct xs" and "\<forall>p\<in>set xs. P p \<longrightarrow> p = x"
  shows "length (filter P xs) \<le> 1"
proof -
  have "distinct (filter P xs)" using assms(1) by simp
  then have "length (filter P xs) = card (set (filter P xs))"
    by (rule distinct_card [symmetric])
  also have "\<dots> \<le> card {x}"
    using assms(2) by (intro card_mono) auto
  finally show ?thesis by simp
qed

lemma antennes_distinct: "distinct antennes"
  by (simp add: antennes_eq)

lemma relayPins_inj:
  "i \<in> set antennes \<Longrightarrow> j \<in> set antennes \<Longrightarrow> relayPins ! unat i = relayPins ! unat j \<Longrightarrow> i = j"
  by (auto simp add: antennes_eq relayPins_def)

lemma selectionner_relais:
  "i \<in> set antennes \<Longrightarrow> idx \<in> set antennes \<Longrightarrow> relais (selectionner idx now s) i \<longleftrightarrow> i = idx"
  by (auto simp add: relais_def selectionner_eq fold_low_apply dest: relayPins_inj)

lemma selectionner_relais_le:
  "i \<in> set antennes \<Longrightarrow> relais (selectionner idx now s) i \<Longrightarrow>
     relayPins ! unat i = relayPins ! unat idx"
  by (auto simp add: relais_def selectionner_eq fold_low_apply split: if_splits)

lemma idx_in_window:
  assumes "FIRST_BTN_ID \<le> c" and "unat c < unat FIRST_BTN_ID + unat NB_ANTENNES"
  shows "c - FIRST_BTN_ID < 8"
proof -
  have "unat (c - FIRST_BTN_ID) = unat c - unat FIRST_BTN_ID"
    using assms(1) by (simp add: unat_sub)
  then have "unat (c - FIRST_BTN_ID) < 8"
    using assms(2) by (simp add: FIRST_BTN_ID_def NB_ANTENNES_def)
  then show ?thesis by (simp add: word_less_nat_alt)
qed

lemma antennes_iff: "i \<in> set antennes \<longleftrightarrow> i < 8"
  using u8_less_8_cases [of i] by (auto simp add: antennes_eq)

lemma traiterTrame_cases:
  "traiterTrame now s = s \<or> (\<exists>idx. idx < 8 \<and> traiterTrame now s = selectionner idx now s)"
proof (cases "traiterTrame now s = s")
  case True
  then show ?thesis by simp
next
  case False
  then have w: "FIRST_BTN_ID \<le> buffer s ! 2"
      "unat (buffer s ! 2) < unat FIRST_BTN_ID + unat NB_ANTENNES"
    and e: "traiterTrame now s = selectionner (buffer s ! 2 - FIRST_BTN_ID) now s"
    by (auto simp add: traiterTrame_def Let_def split: if_splits)
  from idx_in_window [OF w] e show ?thesis by blast
qed

subsection \<open>At most one relay\<close>

lemma filter_length_mono:
  "(\<And>x. x \<in> set xs \<Longrightarrow> P x \<Longrightarrow> Q x) \<Longrightarrow> length (filter P xs) \<le> length (filter Q xs)"
  by (induction xs) auto

lemma nbRelaisActifs_pins: "pins s' = pins s \<Longrightarrow> nbRelaisActifs s' = nbRelaisActifs s"
  by (simp add: nbRelaisActifs_def relais_def [abs_def])

lemma selectionner_exclusive: "idx < 8 \<Longrightarrow> nbRelaisActifs (selectionner idx now s) \<le> 1"
  unfolding nbRelaisActifs_def
  by (rule at_most_one [where x = idx]) (simp_all add: antennes_distinct selectionner_relais antennes_iff)

lemma traiterTrame_exclusive:
  "nbRelaisActifs s \<le> 1 \<Longrightarrow> nbRelaisActifs (traiterTrame now s) \<le> 1"
  using traiterTrame_cases [of now s] selectionner_exclusive [of _ now s] by auto

lemma octetNextion_exclusive:
  assumes "nbRelaisActifs s \<le> 1"
  shows "nbRelaisActifs (octetNextion c now s) \<le> 1"
proof -
  let ?s1 = "s\<lparr>buffer := (buffer s)[unat (pos s) := c], pos := pos s + 1\<rparr>"
  have "nbRelaisActifs ?s1 = nbRelaisActifs s"
    by (rule nbRelaisActifs_pins) simp
  then have 1: "nbRelaisActifs ?s1 \<le> 1"
    using assms by simp
  have "nbRelaisActifs ((traiterTrame now ?s1)\<lparr>pos := 0\<rparr>) = nbRelaisActifs (traiterTrame now ?s1)"
    by (rule nbRelaisActifs_pins) simp
  then have 2: "nbRelaisActifs ((traiterTrame now ?s1)\<lparr>pos := 0\<rparr>) \<le> 1"
    using traiterTrame_exclusive [OF 1] by simp
  show ?thesis
    using assms 1 2 by (simp add: octetNextion_def Let_def)
qed

lemma recevoir_exclusive:
  "nbRelaisActifs s \<le> 1 \<Longrightarrow> nbRelaisActifs (recevoirEvenementsNextion rx s) \<le> 1"
proof (induction rx s rule: recevoirEvenementsNextion.induct)
  case (1 s)
  then show ?case by simp
next
  case (2 c now rx s)
  from 2(1) [OF octetNextion_exclusive [OF 2(2)]] show ?case by simp
qed

lemma gerer_exclusive:
  "nbRelaisActifs (gererTemporisations now s) \<le> nbRelaisActifs s"
  unfolding nbRelaisActifs_def gererTemporisations_def relais_def
  by (rule filter_length_mono) (rule fold_gerer_pins_mono)

lemma executer_exclusive:
  "nbRelaisActifs s \<le> 1 \<Longrightarrow> nbRelaisActifs (executer appels s) \<le> 1"
  unfolding executer_def
proof (induction appels arbitrary: s)
  case Nil
  then show ?case by simp
next
  case (Cons a appels)
  have "nbRelaisActifs (executer_appel a s) \<le> 1"
  proof (cases a)
    case (Recevoir rx)
    then show ?thesis using recevoir_exclusive [OF Cons.prems] by simp
  next
    case (Gerer now)
    then show ?thesis using Cons.prems gerer_exclusive [of now s] by simp
  qed
  then show ?case using Cons.IH by simp
qed

subsection \<open>Setup\<close>

lemma fold_setup_body:
  "fold setup_body is s =
     s\<lparr>pinModes := fold (\<lambda>i m. m(relayPins ! unat i := True)) is (pinModes s),
       pins := fold (\<lambda>i p. p(relayPins ! unat i := False)) is (pins s),
       pinWrites := pinWrites s @ map (\<lambda>i. (relayPins ! unat i, False)) is\<rparr>"
  by (induction "is" arbitrary: s) (simp_all add: setup_body_def digitalWrite_def pinMode_def)

lemma setup_relais: "i \<in> set antennes \<Longrightarrow> \<not> relais (setup_ino s) i"
  by (simp add: setup_ino_def Let_def relais_def fold_setup_body exclusivite_eq setBoutonOn_def
      Serial3_write_def fold_low_apply)

lemma setup_exclusive: "nbRelaisActifs (setup_ino s) = 0"
  by (simp add: nbRelaisActifs_def setup_relais)

subsection \<open>Receiving a frame\<close>

lemma length_7_cases:
  assumes "length xs = 7"
  obtains x0 x1 x2 x3 x4 x5 x6 where "xs = [x0, x1, x2, x3, x4, x5, x6]"
proof -
  from assms have "length xs = Suc (Suc (Suc (Suc (Suc (Suc (Suc 0))))))"
    by simp
  then show ?thesis
    by (auto simp add: length_Suc_conv intro: that)
qed

lemma window_filled:
  assumes "length xs = 7"
  shows "xs[0 := a0, Suc 0 := a1, 2 := a2, 3 := a3, 4 := a4, 5 := a5, 6 := a6] =
         [a0, a1, a2, a3, a4, a5, a6]"
proof -
  from assms obtain b0 b1 b2 b3 b4 b5 b6 where "xs = [b0, b1, b2, b3, b4, b5, b6]"
    by (rule length_7_cases)
  then show ?thesis by (simp add: eval_nat_numeral)
qed

lemma octet_first:
  "pos s = 0 \<Longrightarrow> octetNextion 0x65 now s = s\<lparr>buffer := (buffer s)[0 := 0x65], pos := 1\<rparr>"
  by (simp add: octetNextion_def Let_def word_le_nat_alt)

lemma octet_skipped:
  "pos s = 0 \<Longrightarrow> c \<noteq> 0x65 \<Longrightarrow> octetNextion c now s = s"
  by (simp add: octetNextion_def)

lemma octet_middle:
  "pos s = k \<Longrightarrow> 0 < k \<Longrightarrow> k < 6 \<Longrightarrow>
     octetNextion c now s = s\<lparr>buffer := (buffer s)[unat k := c], pos := k + 1\<rparr>"
proof -
  assume a: "pos s = k" "0 < k" "k < 6"
  have "unat k < 6" using a(3) by (simp add: word_less_nat_alt)
  then have "unat (k + 1) = unat k + 1" by (simp add: unat_word_ariths)
  then have "\<not> 7 \<le> k + 1" using \<open>unat k < 6\<close> by (simp add: word_le_nat_alt)
  then show ?thesis using a by (auto simp add: octetNextion_def Let_def)
qed

lemma octet_last:
  "pos s = 6 \<Longrightarrow>
     octetNextion c now s =
       (traiterTrame now (s\<lparr>buffer := (buffer s)[6 := c], pos := 7\<rparr>))\<lparr>pos := 0\<rparr>"
  by (simp add: octetNextion_def Let_def word_le_nat_alt)

lemma recevoir_trame:
  assumes "pos s = 0" and "length (buffer s) = 7" and "length ts = 7"
  shows "recevoirEvenementsNextion (trameRecue page c st ts) s =
         (traiterTrame (ts ! 6) (s\<lparr>buffer := trame page c st, pos := 7\<rparr>))\<lparr>pos := 0\<rparr>"
proof -
  from assms(3) obtain t0 t1 t2 t3 t4 t5 t6 where ts: "ts = [t0, t1, t2, t3, t4, t5, t6]"
    by (rule length_7_cases)
  have t6: "ts ! 6 = t6" by (simp add: ts)
  show ?thesis
    unfolding t6 using assms(1)
    by (simp add: ts trameRecue_def trame_def octet_first octet_middle octet_last
        window_filled [OF assms(2)])
qed

lemma window_valid:
  assumes "k < 8"
  shows "FIRST_BTN_ID \<le> FIRST_BTN_ID + k"
    and "unat (FIRST_BTN_ID + k) < unat FIRST_BTN_ID + unat NB_ANTENNES"
    and "FIRST_BTN_ID + k - FIRST_BTN_ID = k"
  using u8_less_8_cases [OF assms]
  by (auto simp add: FIRST_BTN_ID_def NB_ANTENNES_def word_le_nat_alt)

lemma traiterTrame_valid:
  assumes "k < 8"
  shows "traiterTrame now (s\<lparr>buffer := trame 0 (FIRST_BTN_ID + k) st, pos := p\<rparr>) =
         selectionner k now (s\<lparr>buffer := trame 0 (FIRST_BTN_ID + k) st, pos := p\<rparr>)"
  using window_valid [OF assms]
  by (simp add: traiterTrame_def trame_def Let_def)

lemma traiterTrame_ignored:
  assumes "page \<noteq> 0 \<or> unat c < unat FIRST_BTN_ID \<or> unat FIRST_BTN_ID + unat NB_ANTENNES \<le> unat c"
  shows "traiterTrame now (s\<lparr>buffer := trame page c st, pos := p\<rparr>) =
         s\<lparr>buffer := trame page c st, pos := p\<rparr>"
  using assms
  by (auto simp add: traiterTrame_def trame_def Let_def word_le_nat_alt)

lemma recevoir_selection:
  assumes "pos s = 0" and "length (buffer s) = 7" and "length ts = 7" and "k < 8"
  shows "recevoirEvenementsNextion (trameRecue 0 (FIRST_BTN_ID + k) st ts) s =
         selectionner k (ts ! 6) (s\<lparr>buffer := trame 0 (FIRST_BTN_ID + k) st\<rparr>)"
proof -
  have "recevoirEvenementsNextion (trameRecue 0 (FIRST_BTN_ID + k) st ts) s =
        (selectionner k (ts ! 6) (s\<lparr>buffer := trame 0 (FIRST_BTN_ID + k) st, pos := 7\<rparr>))\<lparr>pos := 0\<rparr>"
    by (simp add: recevoir_trame [OF assms(1-3)] traiterTrame_valid [OF assms(4)])
  also have "\<dots> = selectionner k (ts ! 6) (s\<lparr>buffer := trame 0 (FIRST_BTN_ID + k) st\<rparr>)"
    using assms(1) by (simp add: selectionner_eq)
  finally show ?thesis .
qed

lemma recevoir_ignored:
  assumes "pos s = 0" and "length (buffer s) = 7" and "length ts = 7"
    and "page \<noteq> 0 \<or> unat c < unat FIRST_BTN_ID \<or> unat FIRST_BTN_ID + unat NB_ANTENNES \<le> unat c"
  shows "recevoirEvenementsNextion (trameRecue page c st ts) s = s\<lparr>buffer := trame page c st\<rparr>"
  using assms(1)
  by (simp add: recevoir_trame [OF assms(1-3)] traiterTrame_ignored [OF assms(4)])

subsection \<open>Commands sent to the display\<close>

lemma printNumber_digit: "n < 10 \<Longrightarrow> printNumber n = [char_of (48 + n)]"
  by (simp add: printNumber.simps)

lemma char_of_digits:
  "char_of (48::nat) = CHR ''0''" "char_of (49::nat) = CHR ''1''" "char_of (50::nat) = CHR ''2''"
  "char_of (51::nat) = CHR ''3''" "char_of (52::nat) = CHR ''4''" "char_of (53::nat) = CHR ''5''"
  "char_of (54::nat) = CHR ''6''" "char_of (55::nat) = CHR ''7''"
  by code_simp+

lemma commandes_0:
  "commandesSelection 0 =
     ''bt1.val=0'' @ terminateur @ ''bt2.val=0'' @ terminateur @ ''bt3.val=0'' @ terminateur @
     ''bt4.val=0'' @ terminateur @ ''bt5.val=0'' @ terminateur @ ''bt6.val=0'' @ terminateur @
     ''bt7.val=0'' @ terminateur @ ''bt0.val=1'' @ terminateur"
  by (simp add: commandesSelection_def antennes_eq setBoutonOffBytes_def setBoutonOnBytes_def
      printNumber_digit terminateur_def char_of_digits)

subsection \<open>Deadlines and relays after a selection\<close>

lemma unat_antenne: "j < 8 \<Longrightarrow> unat (word_of_nat j :: u8) = j"
  by (simp add: unat_of_nat)

lemma selectionner_deadlines:
  assumes "length (relayOffTime s) = 8" and "k < 8"
  shows "relayOffTime (selectionner k now s) = (replicate 8 0)[unat k := now + 2000]"
proof (rule nth_equalityI)
  show "length (relayOffTime (selectionner k now s)) = length ((replicate 8 (0::u32))[unat k := now + 2000])"
    using assms(1) by (simp add: selectionner_eq)
next
  fix j
  assume "j < length (relayOffTime (selectionner k now s))"
  then have j: "j < 8" using assms(1) by (simp add: selectionner_eq)
  show "relayOffTime (selectionner k now s) ! j = (replicate 8 0)[unat k := now + 2000] ! j"
  proof (cases "j = unat k")
    case True
    then show ?thesis using j assms(1) by (simp add: selectionner_eq)
  next
    case False
    let ?i = "word_of_nat j :: u8"
    have "unat ?i = j" using j by (rule unat_antenne)
    moreover have "?i < 8" using \<open>unat ?i = j\<close> j by (simp add: word_less_nat_alt)
    moreover have "?i \<noteq> k" using False \<open>unat ?i = j\<close> by auto
    ultimately have "j \<in> unat ` set (filter (\<lambda>i. i \<noteq> k) antennes)"
      by (auto simp add: antennes_iff image_iff intro!: bexI [where x = ?i])
    then show ?thesis
      using False j assms(1) by (simp add: selectionner_eq fold_clear_nth)
  qed
qed

lemma selectionner_relais_map:
  "k < 8 \<Longrightarrow> map (relais (selectionner k now s)) antennes = map (\<lambda>i. i = k) antennes"
  by (rule map_cong) (simp_all add: selectionner_relais antennes_iff)






lemma nbSelections_selectionner:
  "k < 8 \<Longrightarrow> nbSelections k (selectionner k now s) = nbSelections k s + 1"
  by (simp add: nbSelections_def selectionner_eq filter_empty_conv)

subsection \<open>A dropped window\<close>

lemma recevoir_append:
  "recevoirEvenementsNextion (xs @ ys) s =
     recevoirEvenementsNextion ys (recevoirEvenementsNextion xs s)"
  by (induction xs s rule: recevoirEvenementsNextion.induct) simp_all

lemma recevoir_fenetre:
  assumes "pos s = 0" and "length (buffer s) = 7"
  shows "recevoirEvenementsNextion
           [(0x65, t0), (w1, t1), (w2, t2), (w3, t3), (w4, t4), (w5, t5), (w6, t6)] s =
         (traiterTrame t6 (s\<lparr>buffer := [0x65, w1, w2, w3, w4, w5, w6], pos := 7\<rparr>))\<lparr>pos := 0\<rparr>"
  using assms(1)
  by (simp add: octet_first octet_middle octet_last window_filled [OF assms(2)])

lemma traiterTrame_malformed:
  "buffer s ! 4 \<noteq> 0xFF \<or> buffer s ! 5 \<noteq> 0xFF \<or> buffer s ! 6 \<noteq> 0xFF \<Longrightarrow> traiterTrame now s = s"
  by (auto simp add: traiterTrame_def)

lemma resync_window:
  assumes "pos s = 0" and "length (buffer s) = 7"
  shows "recevoirEvenementsNextion
           [(0x65, t0), (0x00, t1), (0xFF, t2), (0x65, t3), (0x00, t4), (0x02, t5), (st, t6),
            (0xFF, t7), (0xFF, t8), (0xFF, t9)] s =
         s\<lparr>buffer := [0x65, 0x00, 0xFF, 0x65, 0x00, 0x02, st]\<rparr>"
proof -
  let ?w = "[(0x65, t0), (0x00, t1), (0xFF, t2), (0x65, t3), (0x00, t4), (0x02, t5), (st, t6)]"
  let ?s1 = "s\<lparr>buffer := [0x65, 0x00, 0xFF, 0x65, 0x00, 0x02, st]\<rparr>"
  have "traiterTrame t6 (s\<lparr>buffer := [0x65, 0x00, 0xFF, 0x65, 0x00, 0x02, st], pos := 7\<rparr>) =
        s\<lparr>buffer := [0x65, 0x00, 0xFF, 0x65, 0x00, 0x02, st], pos := 7\<rparr>"
    by (rule traiterTrame_malformed) simp
  then have 1: "recevoirEvenementsNextion ?w s = ?s1"
    using assms(1) by (simp only: recevoir_fenetre [OF assms]) simp
  have 2: "recevoirEvenementsNextion [(0xFF, t7), (0xFF, t8), (0xFF, t9)] ?s1 = ?s1"
    using assms(1) by (simp add: octet_skipped)
  have "recevoirEvenementsNextion (?w @ [(0xFF, t7), (0xFF, t8), (0xFF, t9)]) s = ?s1"
    unfolding recevoir_append 1 2 ..
  then show ?thesis by simp
qed

lemma length_10_cases:
  assumes "length xs = 10"
  obtains x0 x1 x2 x3 x4 x5 x6 x7 x8 x9 where "xs = [x0, x1, x2, x3, x4, x5, x6, x7, x8, x9]"
proof -
  from assms have "length xs = Suc (Suc (Suc (Suc (Suc (Suc (Suc (Suc (Suc (Suc 0)))))))))"
    by simp
  then show ?thesis
    by (auto simp add: length_Suc_conv intro: that)
qed

lemma resync_discarded:
  assumes "pos s = 0" and "length (buffer s) = 7" and "length ts = 10"
  shows "recevoirEvenementsNextion (zip ([0x65, 0x00, 0xFF] @ trame 0 2 st) ts) s =
         s\<lparr>buffer := [0x65, 0x00, 0xFF, 0x65, 0x00, 0x02, st]\<rparr>"
proof -
  from assms(3) obtain t0 t1 t2 t3 t4 t5 t6 t7 t8 t9
    where ts: "ts = [t0, t1, t2, t3, t4, t5, t6, t7, t8, t9]"
    by (rule length_10_cases)
  show ?thesis
    unfolding ts trame_def using resync_window [OF assms(1,2)] by simp
qed

subsection \<open>Setup from the state at power-up\<close>

lemma lire_cases:
  "lireSelectionEEPROM s = - 1 \<or>
   (lireSelectionEEPROM s < 8 \<and> lireSelectionEEPROM s = eeprom s 1 \<and> eeprom s 0 = 0xA5)"
  by (auto simp add: lireSelectionEEPROM_def EEPROM_read_def EEPROM_MAGIC_ADDR_def
      EEPROM_SELECTED_ADDR_def EEPROM_MAGIC_VALUE_def NB_ANTENNES_def Let_def not_le)

lemma lire_eeprom: "eeprom s' = eeprom s \<Longrightarrow> lireSelectionEEPROM s' = lireSelectionEEPROM s"
  by (simp add: lireSelectionEEPROM_def EEPROM_read_def)

lemma index_valide: "k < 8 \<Longrightarrow> 0 \<le> sint (k::u8) \<and> sint k < sint NB_ANTENNES"
  using u8_less_8_cases [of k] by (auto simp add: NB_ANTENNES_def)

lemma index_absent: "\<not> (0 \<le> sint (- 1 :: u8) \<and> sint (- 1 :: u8) < sint NB_ANTENNES)"
  by simp

lemma fold_clear_zeros: "fold (\<lambda>i t. t[unat i := (0::u32)]) js (replicate n 0) = replicate n 0"
  by (rule nth_equalityI) (simp_all add: fold_clear_nth)

lemma setup_valid:
  assumes "lireSelectionEEPROM (boot e) < 8"
  shows "setup_ino (boot e) =
     (boot e)\<lparr>antenneSelectionnee := lireSelectionEEPROM (boot e),
       pinModes := fold (\<lambda>i m. m(relayPins ! unat i := True)) antennes (\<lambda>_. False),
       pins := fold (\<lambda>i p. p(relayPins ! unat i := False))
                 (filter (\<lambda>i. i \<noteq> lireSelectionEEPROM (boot e)) antennes)
                 (fold (\<lambda>i p. p(relayPins ! unat i := False)) antennes (\<lambda>_. False)),
       pinWrites := map (\<lambda>i. (relayPins ! unat i, False)) antennes @
          map (\<lambda>i. (relayPins ! unat i, False)) (filter (\<lambda>i. i \<noteq> lireSelectionEEPROM (boot e)) antennes),
       serial3 := commandesSelection (lireSelectionEEPROM (boot e))\<rparr>"
proof -
  let ?s1 = "fold setup_body antennes (boot e)"
  have l: "lireSelectionEEPROM ?s1 = lireSelectionEEPROM (boot e)"
    by (rule lire_eeprom) (simp add: fold_setup_body)
  show ?thesis
    using index_valide [OF assms]
    by (simp add: setup_ino_def Let_def l)
       (simp add: fold_setup_body exclusivite_eq setBoutonOn_def Serial3_write_def
         commandesSelection_def boot_def fold_clear_zeros)
qed

lemma setup_absent:
  assumes "lireSelectionEEPROM (boot e) = - 1"
  shows "setup_ino (boot e) =
     (boot e)\<lparr>pinModes := fold (\<lambda>i m. m(relayPins ! unat i := True)) antennes (\<lambda>_. False),
       pins := fold (\<lambda>i p. p(relayPins ! unat i := False)) antennes (\<lambda>_. False),
       pinWrites := map (\<lambda>i. (relayPins ! unat i, False)) antennes\<rparr>"
proof -
  let ?s1 = "fold setup_body antennes (boot e)"
  have l: "lireSelectionEEPROM ?s1 = - 1"
    using assms lire_eeprom [of ?s1 "boot e"] by (simp add: fold_setup_body)
  show ?thesis
    by (simp add: setup_ino_def Let_def l) (simp add: fold_setup_body boot_def)
qed

lemma setup_relais_map: "map (relais (setup_ino s)) antennes = replicate 8 False"
proof -
  have "map (relais (setup_ino s)) antennes = map (\<lambda>_. False) antennes"
    by (rule map_cong) (simp_all add: setup_relais)
  then show ?thesis by (simp add: antennes_eq numeral_eq_Suc)
qed

lemma first_writes: "map (\<lambda>i. (relayPins ! unat i, False)) antennes = map (\<lambda>p. (p, False)) relayPins"
  by (simp add: antennes_eq relayPins_def)

lemma length_antennes: "length antennes = 8"
  by (simp add: antennes_eq)

subsection \<open>The scan after a selection\<close>

lemma unat_lt_8: "(k::u8) < 8 \<Longrightarrow> unat k < 8"
  by (simp add: word_less_nat_alt)

lemma gerer_relais:
  assumes "length (relayOffTime s) = 8" and "k < 8"
  shows "relais (gererTemporisations now s) k \<longleftrightarrow>
         relais s k \<and> \<not> expired now (relayOffTime s ! unat k)"
proof -
  have k: "k \<in> set antennes" using assms(2) by (simp add: antennes_iff)
  have bound: "\<forall>i\<in>set antennes. unat i < length (relayOffTime s)"
  proof
    fix i :: u8
    assume "i \<in> set antennes"
    then have "i < 8" by (simp add: antennes_iff)
    then show "unat i < length (relayOffTime s)"
      unfolding assms(1) by (rule unat_lt_8)
  qed
  have ex: "(\<exists>i\<in>set antennes. relayPins ! unat i = relayPins ! unat k \<and>
           expired now (relayOffTime s ! unat i)) \<longleftrightarrow> expired now (relayOffTime s ! unat k)"
  proof
    assume "\<exists>i\<in>set antennes. relayPins ! unat i = relayPins ! unat k \<and>
           expired now (relayOffTime s ! unat i)"
    then obtain i where i: "i \<in> set antennes" "relayPins ! unat i = relayPins ! unat k"
      "expired now (relayOffTime s ! unat i)" by blast
    from i(1) k i(2) have "i = k" by (rule relayPins_inj)
    with i(3) show "expired now (relayOffTime s ! unat k)" by simp
  next
    assume "expired now (relayOffTime s ! unat k)"
    with k show "\<exists>i\<in>set antennes. relayPins ! unat i = relayPins ! unat k \<and>
           expired now (relayOffTime s ! unat i)" by blast
  qed
  have "pins (gererTemporisations now s) (relayPins ! unat k) =
     (if expired now (relayOffTime s ! unat k) then False else pins s (relayPins ! unat k))"
    by (simp only: gererTemporisations_def fold_gerer_pins [OF bound] ex)
  then show ?thesis by (simp add: relais_def)
qed

lemma gerer_deadline:
  fixes k :: u8
  assumes "length (relayOffTime s) = 8" and "k < 8"
  shows "relayOffTime (gererTemporisations now s) ! unat k =
         (if expired now (relayOffTime s ! unat k) then 0 else relayOffTime s ! unat k)"
proof -
  have "unat k < length (relayOffTime s)" using assms unat_lt_8 [of k] by simp
  moreover have "unat k \<in> unat ` set antennes" using assms(2) by (simp add: antennes_iff)
  ultimately show ?thesis
    unfolding gererTemporisations_def by (simp add: fold_gerer_deadline)
qed

lemma gerer_length:
  "length (relayOffTime (gererTemporisations now s)) = length (relayOffTime s)"
  by (simp add: gererTemporisations_def fold_gerer_other)

lemma gerer_other:
  "antenneSelectionnee (gererTemporisations now s) = antenneSelectionnee s"
  "serial3 (gererTemporisations now s) = serial3 s"
  "eeprom (gererTemporisations now s) = eeprom s"
  "pos (gererTemporisations now s) = pos s"
  "buffer (gererTemporisations now s) = buffer s"
  by (simp_all add: gererTemporisations_def fold_gerer_other)

lemma scans_sentinel:
  assumes "length (relayOffTime s) = 8" and "k < 8" and "relayOffTime s ! unat k = 0"
  shows "relais (fold gererTemporisations nows s) k = relais s k \<and>
         relayOffTime (fold gererTemporisations nows s) ! unat k = 0 \<and>
         length (relayOffTime (fold gererTemporisations nows s)) = 8"
  using assms
proof (induction nows arbitrary: s)
  case Nil
  then show ?case by simp
next
  case (Cons now nows)
  let ?s' = "gererTemporisations now s"
  have 1: "length (relayOffTime ?s') = 8" using Cons.prems(1) by (simp add: gerer_length)
  have 2: "relayOffTime ?s' ! unat k = 0"
    using Cons.prems by (simp add: gerer_deadline)
  have 3: "relais ?s' k = relais s k"
    using Cons.prems by (simp add: gerer_relais)
  from Cons.IH [OF 1 Cons.prems(2) 2] 3 show ?case by simp
qed

lemma selection_state:
  assumes "length (relayOffTime s) = 8" and "k < 8"
  shows "relais (selectionner k T s) k"
    and "relayOffTime (selectionner k T s) ! unat k = T + 2000"
    and "length (relayOffTime (selectionner k T s)) = 8"
  using assms unat_lt_8 [of k] by (simp_all add: selectionner_relais antennes_iff selectionner_deadlines)

lemma wrapped_deadline:
  fixes T :: u32
  assumes "0xFFFFF830 < T" and "T \<le> now"
  shows "expired now (T + 2000)"
proof -
  have t: "4294965296 < unat T" using assms(1) by (simp add: word_less_nat_alt)
  have "unat T < 2 ^ 32" using unsigned_less [of T] by simp
  have "unat (T + 2000) = (unat T + 2000) mod 2 ^ 32"
    by (simp add: unat_word_ariths)
  also have "\<dots> = unat T + 2000 - 2 ^ 32"
    using t \<open>unat T < 2 ^ 32\<close> by (simp add: mod_if)
  finally have d: "unat (T + 2000) = unat T - 4294965296" using t by simp
  then have "unat (T + 2000) \<noteq> 0" "unat (T + 2000) \<le> unat T" using t by simp_all
  then have "T + 2000 \<noteq> 0" "T + 2000 \<le> T"
    by (auto simp add: word_le_nat_alt)
  then show ?thesis using assms(2) by (auto simp add: expired_def)
qed

lemma unwrapped_deadline:
  fixes T :: u32
  assumes "unat T + 2000 < 2 ^ 32"
  shows "expired now (T + 2000) \<longleftrightarrow> unat T + 2000 \<le> unat now"
proof -
  have "unat (T + 2000) = unat T + 2000"
    using assms by (simp add: unat_word_ariths)
  then show ?thesis
    by (auto simp add: expired_def word_le_nat_alt unat_eq_zero [symmetric] simp del: unat_eq_zero)
qed

lemma lire_erased: "lireSelectionEEPROM (boot (\<lambda>_. 0xFF)) = - 1"
  by (simp add: lireSelectionEEPROM_def EEPROM_read_def EEPROM_MAGIC_ADDR_def
      EEPROM_MAGIC_VALUE_def boot_def)

lemma setup_erased:
  "pos (setup_ino (boot (\<lambda>_. 0xFF))) = 0"
  "length (buffer (setup_ino (boot (\<lambda>_. 0xFF)))) = 7"
  "length (relayOffTime (setup_ino (boot (\<lambda>_. 0xFF)))) = 8"
  unfolding setup_absent [OF lire_erased] by (simp_all add: boot_def)

text \<open>
  Where the deadline does not wrap, the relay of the selected antenna survives every scan
  whose clock reads less than \<open>T + 2000\<close> and is switched off, its deadline cleared, by a
  scan whose clock reads \<open>T + 2000\<close> or more. This is about the values the scan reads: a
  scan that comes after the clock itself has wrapped reads a small value again and leaves
  the relay on. The scan never sends to the display and never changes
  \<open>antenneSelectionnee\<close> (\<open>gerer_other\<close>).
\<close>

lemma pulse_without_wrap:
  assumes "pos s = 0" and "length (buffer s) = 7" and "length (relayOffTime s) = 8"
    and "length ts = 7" and "k < 8" and "unat (ts ! 6) + 2000 < 2 ^ 32"
  shows "relais (gererTemporisations now
           (recevoirEvenementsNextion (trameRecue 0 (FIRST_BTN_ID + k) st ts) s)) k \<longleftrightarrow>
         unat now < unat (ts ! 6) + 2000"
    and "relayOffTime (gererTemporisations now
           (recevoirEvenementsNextion (trameRecue 0 (FIRST_BTN_ID + k) st ts) s)) ! unat k =
         (if unat now < unat (ts ! 6) + 2000 then ts ! 6 + 2000 else 0)"
proof -
  let ?s1 = "s\<lparr>buffer := trame 0 (FIRST_BTN_ID + k) st\<rparr>"
  let ?R = "selectionner k (ts ! 6) ?s1"
  have r: "recevoirEvenementsNextion (trameRecue 0 (FIRST_BTN_ID + k) st ts) s = ?R"
    by (rule recevoir_selection [OF assms(1,2,4,5)])
  have l: "length (relayOffTime ?s1) = 8" using assms(3) by simp
  note st = selection_state [OF l assms(5), of "ts ! 6"]
  show "relais (gererTemporisations now
           (recevoirEvenementsNextion (trameRecue 0 (FIRST_BTN_ID + k) st ts) s)) k \<longleftrightarrow>
         unat now < unat (ts ! 6) + 2000"
    unfolding r gerer_relais [OF st(3) assms(5)] st(2) unwrapped_deadline [OF assms(6)]
    using st(1) by auto
  show "relayOffTime (gererTemporisations now
           (recevoirEvenementsNextion (trameRecue 0 (FIRST_BTN_ID + k) st ts) s)) ! unat k =
         (if unat now < unat (ts ! 6) + 2000 then ts ! 6 + 2000 else 0)"
    unfolding r gerer_deadline [OF st(3) assms(5)] st(2) unwrapped_deadline [OF assms(6)]
    by auto
qed

lemma scan_after_selection:
  assumes "pos s = 0" and "length (buffer s) = 7" and "length (relayOffTime s) = 8"
    and "length ts = 7" and "k < 8"
  shows "relais (gererTemporisations now
            (recevoirEvenementsNextion (trameRecue 0 (FIRST_BTN_ID + k) st ts) s)) k \<longleftrightarrow>
          \<not> expired now (ts ! 6 + 2000)"
proof -
  let ?s1 = "s\<lparr>buffer := trame 0 (FIRST_BTN_ID + k) st\<rparr>"
  have r: "recevoirEvenementsNextion (trameRecue 0 (FIRST_BTN_ID + k) st ts) s =
      selectionner k (ts ! 6) ?s1"
    by (rule recevoir_selection [OF assms(1,2,4,5)])
  have l: "length (relayOffTime ?s1) = 8" using assms(3) by simp
  note st = selection_state [OF l assms(5), of "ts ! 6"]
  show ?thesis
    unfolding r gerer_relais [OF st(3) assms(5)] st(2) using st(1) by simp
qed

lemma scans_after_selection_sentinel:
  assumes "pos s = 0" and "length (buffer s) = 7" and "length (relayOffTime s) = 8"
    and "length ts = 7" and "k < 8" and "ts ! 6 + 2000 = 0"
  shows "relayOffTime (recevoirEvenementsNextion (trameRecue 0 (FIRST_BTN_ID + k) st ts) s) ! unat k = 0"
    and "relais (fold gererTemporisations nows
            (recevoirEvenementsNextion (trameRecue 0 (FIRST_BTN_ID + k) st ts) s)) k"
proof -
  let ?s1 = "s\<lparr>buffer := trame 0 (FIRST_BTN_ID + k) st\<rparr>"
  let ?R = "selectionner k (ts ! 6) ?s1"
  have r: "recevoirEvenementsNextion (trameRecue 0 (FIRST_BTN_ID + k) st ts) s = ?R"
    by (rule recevoir_selection [OF assms(1,2,4,5)])
  have l: "length (relayOffTime ?s1) = 8" using assms(3) by simp
  note st = selection_state [OF l assms(5), of "ts ! 6"]
  have z: "relayOffTime ?R ! unat k = 0" using st(2) assms(6) by simp
  then show "relayOffTime (recevoirEvenementsNextion (trameRecue 0 (FIRST_BTN_ID + k) st ts) s) ! unat k = 0"
    unfolding r .
  from scans_sentinel [OF st(3) assms(5) z, of nows] st(1)
  show "relais (fold gererTemporisations nows
            (recevoirEvenementsNextion (trameRecue 0 (FIRST_BTN_ID + k) st ts) s)) k"
    unfolding r by simp
qed

subsection \<open>Well-formed states\<close>

text \<open>
  The state at power-up is well formed and every function of the sketch keeps it so: the
  lengths assumed below hold in every state the sketch reaches.
\<close>

lemma wf_boot: "wf (boot e)"
  by (simp add: wf_def boot_def)

lemma selectionner_lengths:
  "length (relayOffTime (selectionner idx now s)) = length (relayOffTime s)"
  "buffer (selectionner idx now s) = buffer s"
  "pos (selectionner idx now s) = pos s"
  by (simp_all add: selectionner_eq)

lemma traiterTrame_lengths:
  "length (relayOffTime (traiterTrame now s)) = length (relayOffTime s)"
  "buffer (traiterTrame now s) = buffer s"
  using traiterTrame_cases [of now s] by (auto simp add: selectionner_lengths)

lemma wf_octetNextion:
  assumes "wf s"
  shows "wf (octetNextion c now s)"
proof (cases "pos s = 0 \<and> c \<noteq> 0x65")
  case True
  then show ?thesis using assms by (simp add: octetNextion_def)
next
  case False
  let ?s1 = "s\<lparr>buffer := (buffer s)[unat (pos s) := c], pos := pos s + 1\<rparr>"
  have p: "unat (pos s) < 7" using assms by (simp add: wf_def word_less_nat_alt)
  then have u: "unat (pos s + 1) = unat (pos s) + 1" by (simp add: unat_word_ariths)
  show ?thesis
  proof (cases "7 \<le> pos s + 1")
    case True
    then have "octetNextion c now s = (traiterTrame now ?s1)\<lparr>pos := 0\<rparr>"
      using False by (auto simp add: octetNextion_def Let_def)
    then show ?thesis using assms by (simp add: wf_def traiterTrame_lengths)
  next
    case nf: False
    then have "octetNextion c now s = ?s1"
      using False by (auto simp add: octetNextion_def Let_def)
    moreover have "pos s + 1 < 7" using nf by (simp add: not_le)
    ultimately show ?thesis using assms by (simp add: wf_def)
  qed
qed

lemma wf_recevoir: "wf s \<Longrightarrow> wf (recevoirEvenementsNextion rx s)"
proof (induction rx s rule: recevoirEvenementsNextion.induct)
  case (1 s)
  then show ?case by simp
next
  case (2 c now rx s)
  from 2(1) [OF wf_octetNextion [OF 2(2)]] show ?case by simp
qed

lemma wf_gerer: "wf s \<Longrightarrow> wf (gererTemporisations now s)"
  by (simp add: wf_def gerer_length gerer_other)

lemma wf_setup: "wf s \<Longrightarrow> wf (setup_ino s)"
  by (simp add: wf_def setup_ino_def Let_def fold_setup_body exclusivite_eq setBoutonOn_def
      Serial3_write_def)

lemma wf_executer: "wf s \<Longrightarrow> wf (executer appels s)"
  unfolding executer_def
proof (induction appels arbitrary: s)
  case Nil
  then show ?case by simp
next
  case (Cons a appels)
  have "wf (executer_appel a s)"
    using Cons.prems by (cases a) (simp_all add: wf_recevoir wf_gerer)
  then show ?case using Cons.IH by simp
qed

lemma wf_reachable: "wf (executer appels (setup_ino (boot e)))"
  by (intro wf_executer wf_setup wf_boot)

section \<open>Exclusivity\<close>

text \<open>
  C1. Exclusivity invariant: after \<open>setup\<close>, whatever the state at power-up, and after any
  sequence of calls of \<open>recevoirEvenementsNextion\<close> (with any bytes, clocks and number of
  frames) and \<open>gererTemporisations\<close> (at any clock), at most one of the eight relay pins is
  HIGH. The sequence is arbitrary, so this holds after each of its calls.
\<close>

theorem exclusivity:
  "nbRelaisActifs (executer appels (setup_ino s0)) \<le> 1"
  by (rule executer_exclusive) (simp add: setup_exclusive)

section \<open>Resynchronisation of the decoder\<close>

text \<open>
  C2, as stated, fails: with the decoder at write position 0, the three bytes 0x65 0x00 0xFF
  followed by the frame 0x65 0x00 0x02 0x01 0xFF 0xFF 0xFF yield no selection of antenna 0.
  The first seven bytes fill the window, bytes 4 to 6 of the window are 0x00 0x02 0x01 and not
  0xFF, the window is dropped, and the three 0xFF left are skipped at position 0. Here on the
  state at power-up: no selection of antenna 0 is counted afterwards, and the state is the one
  at power-up but for the dropped window left in \<open>buffer\<close>.
\<close>

theorem resync_counterexample:
  "\<not> nbSelections 0 (recevoirEvenementsNextion
        (zip ([0x65, 0x00, 0xFF] @ trame 0 2 1) [1, 2, 3, 4, 5, 6, 7, 8, 9, 10])
        (boot (\<lambda>_. 0xFF))) = 1 \<and>
   nbSelections 0 (recevoirEvenementsNextion
        (zip ([0x65, 0x00, 0xFF] @ trame 0 2 1) [1, 2, 3, 4, 5, 6, 7, 8, 9, 10])
        (boot (\<lambda>_. 0xFF))) = 0 \<and>
   recevoirEvenementsNextion
        (zip ([0x65, 0x00, 0xFF] @ trame 0 2 1) [1, 2, 3, 4, 5, 6, 7, 8, 9, 10])
        (boot (\<lambda>_. 0xFF)) =
     (boot (\<lambda>_. 0xFF))\<lparr>buffer := [0x65, 0x00, 0xFF, 0x65, 0x00, 0x02, 0x01]\<rparr>"
proof -
  have "recevoirEvenementsNextion
        (zip ([0x65, 0x00, 0xFF] @ trame 0 2 1) [1, 2, 3, 4, 5, 6, 7, 8, 9, 10])
        (boot (\<lambda>_. 0xFF)) = (boot (\<lambda>_. 0xFF))\<lparr>buffer := [0x65, 0x00, 0xFF, 0x65, 0x00, 0x02, 0x01]\<rparr>"
    by (rule resync_discarded) (simp_all add: boot_def)
  then show ?thesis by (simp add: nbSelections_def boot_def)
qed

text \<open>
  C2, amended: the three bytes followed by a frame for button 0, whatever its state byte,
  yield no touch event. The state afterwards is the state before with the dropped window in
  \<open>buffer\<close> and the write position at 0, so no selection of antenna 0 has been added; when a
  further frame for button 0 (again with any state byte) is received after them, the
  selection of antenna 0 is performed exactly once.
\<close>

theorem resync_drops_overlapping_frame:
  assumes "pos s = 0" and "length (buffer s) = 7" and "length ts = 10" and "length ts' = 7"
  shows "recevoirEvenementsNextion (zip ([0x65, 0x00, 0xFF] @ trame 0 2 st) ts) s =
           s\<lparr>buffer := [0x65, 0x00, 0xFF, 0x65, 0x00, 0x02, st]\<rparr> \<and>
         nbSelections 0 (recevoirEvenementsNextion (zip ([0x65, 0x00, 0xFF] @ trame 0 2 st) ts) s) =
           nbSelections 0 s \<and>
         nbSelections 0 (recevoirEvenementsNextion
             (zip ([0x65, 0x00, 0xFF] @ trame 0 2 st) ts @ trameRecue 0 2 st' ts') s) =
           nbSelections 0 s + 1"
proof -
  let ?s1 = "s\<lparr>buffer := [0x65, 0x00, 0xFF, 0x65, 0x00, 0x02, st]\<rparr>"
  have 1: "recevoirEvenementsNextion (zip ([0x65, 0x00, 0xFF] @ trame 0 2 st) ts) s = ?s1"
    by (rule resync_discarded [OF assms(1-3)])
  have 2: "nbSelections 0 ?s1 = nbSelections 0 s"
    by (simp add: nbSelections_def)
  have "recevoirEvenementsNextion (trameRecue 0 (FIRST_BTN_ID + 0) st' ts') ?s1 =
        selectionner 0 (ts' ! 6) (?s1\<lparr>buffer := trame 0 (FIRST_BTN_ID + 0) st'\<rparr>)"
    using assms(1) by (intro recevoir_selection) (simp_all add: assms(4))
  then have "nbSelections 0 (recevoirEvenementsNextion (trameRecue 0 2 st' ts') ?s1) =
        nbSelections 0 (?s1\<lparr>buffer := trame 0 (FIRST_BTN_ID + 0) st'\<rparr>) + 1"
    by (simp add: FIRST_BTN_ID_def nbSelections_selectionner)
  then have 3: "nbSelections 0 (recevoirEvenementsNextion (trameRecue 0 2 st' ts') ?s1) =
        nbSelections 0 s + 1"
    by (simp add: nbSelections_def)
  show ?thesis
    unfolding recevoir_append 1 using 2 3 by simp
qed

theorem resync_drops_overlapping_frame_witness:
  "recevoirEvenementsNextion (zip ([0x65, 0x00, 0xFF] @ trame 0 2 1) [1, 2, 3, 4, 5, 6, 7, 8, 9, 10])
       (boot (\<lambda>_. 0xFF)) =
     (boot (\<lambda>_. 0xFF))\<lparr>buffer := [0x65, 0x00, 0xFF, 0x65, 0x00, 0x02, 0x01]\<rparr> \<and>
   nbSelections 0 (recevoirEvenementsNextion
       (zip ([0x65, 0x00, 0xFF] @ trame 0 2 1) [1, 2, 3, 4, 5, 6, 7, 8, 9, 10] @
        trameRecue 0 2 1 [11, 12, 13, 14, 15, 16, 17]) (boot (\<lambda>_. 0xFF))) = 1 \<and>
   recevoirEvenementsNextion (zip ([0x65, 0x00, 0xFF] @ trame 0 2 0) [1, 2, 3, 4, 5, 6, 7, 8, 9, 10])
       (boot (\<lambda>_. 0xFF)) =
     (boot (\<lambda>_. 0xFF))\<lparr>buffer := [0x65, 0x00, 0xFF, 0x65, 0x00, 0x02, 0x00]\<rparr> \<and>
   nbSelections 0 (recevoirEvenementsNextion
       (zip ([0x65, 0x00, 0xFF] @ trame 0 2 0) [1, 2, 3, 4, 5, 6, 7, 8, 9, 10] @
        trameRecue 0 2 0xFF [11, 12, 13, 14, 15, 16, 17]) (boot (\<lambda>_. 0xFF))) = 1"
  using resync_drops_overlapping_frame [where s = "boot (\<lambda>_. 0xFF)" and st = 1 and st' = 1
      and ts = "[1, 2, 3, 4, 5, 6, 7, 8, 9, 10]" and ts' = "[11, 12, 13, 14, 15, 16, 17]"]
    resync_drops_overlapping_frame [where s = "boot (\<lambda>_. 0xFF)" and st = 0 and st' = "0xFF"
      and ts = "[1, 2, 3, 4, 5, 6, 7, 8, 9, 10]" and ts' = "[11, 12, 13, 14, 15, 16, 17]"]
  by (simp add: boot_def nbSelections_def)

section \<open>The durable selection store\<close>

text \<open>
  C3. Persistence round trip: for every index \<open>k\<close> below 8, \<open>lireSelectionEEPROM\<close> after
  \<open>sauvegarderSelection k\<close> returns \<open>k\<close>, whatever the EEPROM held before; read as the
  \<open>int8_t\<close> it is, the result is the number \<open>k\<close> and not the -1 of an absent selection.
\<close>

theorem save_load_roundtrip:
  "k < NB_ANTENNES \<Longrightarrow>
     lireSelectionEEPROM (sauvegarderSelection k s) = k \<and>
     sint (lireSelectionEEPROM (sauvegarderSelection k s)) = int (unat k)"
  by (auto simp add: lireSelectionEEPROM_def sauvegarderSelection_def EEPROM_update_def
      EEPROM_read_def EEPROM_MAGIC_ADDR_def EEPROM_SELECTED_ADDR_def EEPROM_MAGIC_VALUE_def
      NB_ANTENNES_def Let_def sint_small)

theorem save_load_roundtrip_witness:
  "(3::u8) < NB_ANTENNES \<and>
   lireSelectionEEPROM (sauvegarderSelection 3 (boot (\<lambda>_. 0xFF))) = 3 \<and>
   sint (lireSelectionEEPROM (sauvegarderSelection 3 (boot (\<lambda>_. 0xFF)))) = 3"
  using save_load_roundtrip [of 3 "boot (\<lambda>_. 0xFF)"] by (simp add: NB_ANTENNES_def)

text \<open>
  C4. Invalid persisted state: when the cell at address 0 differs from the marker 0xA5,
  \<open>lireSelectionEEPROM\<close> returns -1 whatever the cell at address 1 holds; when the marker is
  there and the cell at address 1 holds 8 or more, it returns -1 as well.
\<close>

theorem load_rejects_invalid:
  "eeprom s 0 \<noteq> 0xA5 \<or> (eeprom s 0 = 0xA5 \<and> eeprom s 1 \<ge> 8) \<Longrightarrow>
     lireSelectionEEPROM s = - 1 \<and> sint (lireSelectionEEPROM s) = - 1"
  by (auto simp add: lireSelectionEEPROM_def EEPROM_read_def EEPROM_MAGIC_ADDR_def
      EEPROM_SELECTED_ADDR_def EEPROM_MAGIC_VALUE_def NB_ANTENNES_def Let_def)

theorem load_rejects_invalid_witness:
  "eeprom (boot (\<lambda>_. 0xFF)) 0 \<noteq> 0xA5 \<and>
   lireSelectionEEPROM (boot (\<lambda>_. 0xFF)) = - 1 \<and>
   eeprom (boot (\<lambda>a. if a = 0 then 0xA5 else 8)) 0 = 0xA5 \<and>
   eeprom (boot (\<lambda>a. if a = 0 then 0xA5 else 8)) 1 \<ge> 8 \<and>
   lireSelectionEEPROM (boot (\<lambda>a. if a = 0 then 0xA5 else 8)) = - 1"
  using load_rejects_invalid [of "boot (\<lambda>_. 0xFF)"]
    load_rejects_invalid [of "boot (\<lambda>a. if a = 0 then 0xA5 else 8)"]
  by (simp add: boot_def)

section \<open>A valid touch event\<close>

text \<open>
  C5. Scenario: the decoder at write position 0 receives 0x65 0x00 0x02 0x01 0xFF 0xFF 0xFF
  (\<open>FIRST_BTN_ID\<close> is 2, so this is antenna 0). Afterwards relay 0 is energised and relays 1
  to 7 are not; the display was sent \<open>.val=0\<close> for bt1 to bt7 and then \<open>bt0.val=1\<close>; the pins of
  relays 1 to 7 were written LOW and then pin 22 HIGH; \<open>antenneSelectionnee\<close> is 0; the
  EEPROM holds 0xA5 at address 0 and 0 at address 1; the deadline of antenna 0 is the clock
  of the last byte plus 2000 and the other deadlines are 0; the write position is 0.
\<close>

theorem scenario_button_0:
  assumes "pos s = 0" and "length (buffer s) = 7" and "length (relayOffTime s) = 8"
    and "length ts = 7"
  shows "map (relais (recevoirEvenementsNextion (trameRecue 0 2 1 ts) s)) antennes =
           [True, False, False, False, False, False, False, False] \<and>
         serial3 (recevoirEvenementsNextion (trameRecue 0 2 1 ts) s) =
           serial3 s @
           ''bt1.val=0'' @ terminateur @ ''bt2.val=0'' @ terminateur @ ''bt3.val=0'' @ terminateur @
           ''bt4.val=0'' @ terminateur @ ''bt5.val=0'' @ terminateur @ ''bt6.val=0'' @ terminateur @
           ''bt7.val=0'' @ terminateur @ ''bt0.val=1'' @ terminateur \<and>
         pinWrites (recevoirEvenementsNextion (trameRecue 0 2 1 ts) s) =
           pinWrites s @ [(23, False), (24, False), (25, False), (26, False), (27, False),
             (28, False), (29, False), (22, True)] \<and>
         antenneSelectionnee (recevoirEvenementsNextion (trameRecue 0 2 1 ts) s) = 0 \<and>
         eeprom (recevoirEvenementsNextion (trameRecue 0 2 1 ts) s) 0 = 0xA5 \<and>
         eeprom (recevoirEvenementsNextion (trameRecue 0 2 1 ts) s) 1 = 0 \<and>
         relayOffTime (recevoirEvenementsNextion (trameRecue 0 2 1 ts) s) =
           [ts ! 6 + 2000, 0, 0, 0, 0, 0, 0, 0] \<and>
         pos (recevoirEvenementsNextion (trameRecue 0 2 1 ts) s) = 0"
proof -
  let ?s1 = "s\<lparr>buffer := trame 0 (FIRST_BTN_ID + 0) 1\<rparr>"
  have r: "recevoirEvenementsNextion (trameRecue 0 2 1 ts) s = selectionner 0 (ts ! 6) ?s1"
    using recevoir_selection [OF assms(1,2,4), of 0 1] by (simp add: FIRST_BTN_ID_def)
  have 1: "map (relais (selectionner 0 (ts ! 6) ?s1)) antennes =
           [True, False, False, False, False, False, False, False]"
    by (simp add: selectionner_relais_map) (simp add: antennes_eq)
  have 2: "serial3 (selectionner 0 (ts ! 6) ?s1) =
           serial3 s @
           ''bt1.val=0'' @ terminateur @ ''bt2.val=0'' @ terminateur @ ''bt3.val=0'' @ terminateur @
           ''bt4.val=0'' @ terminateur @ ''bt5.val=0'' @ terminateur @ ''bt6.val=0'' @ terminateur @
           ''bt7.val=0'' @ terminateur @ ''bt0.val=1'' @ terminateur"
    by (simp only: selectionner_eq commandes_0) simp
  have 3: "pinWrites (selectionner 0 (ts ! 6) ?s1) =
           pinWrites s @ [(23, False), (24, False), (25, False), (26, False), (27, False),
             (28, False), (29, False), (22, True)]"
    by (simp add: selectionner_eq antennes_eq relayPins_def)
  have 4: "antenneSelectionnee (selectionner 0 (ts ! 6) ?s1) = 0"
    "eeprom (selectionner 0 (ts ! 6) ?s1) 0 = 0xA5"
    "eeprom (selectionner 0 (ts ! 6) ?s1) 1 = 0"
    "pos (selectionner 0 (ts ! 6) ?s1) = 0"
    using assms(1) by (simp_all add: selectionner_eq)
  have "length (relayOffTime ?s1) = 8" using assms(3) by simp
  then have "relayOffTime (selectionner 0 (ts ! 6) ?s1) = (replicate 8 0)[unat (0::u8) := ts ! 6 + 2000]"
    by (rule selectionner_deadlines) simp
  also have "\<dots> = [ts ! 6 + 2000, 0, 0, 0, 0, 0, 0, 0]"
    by (simp add: numeral_eq_Suc)
  finally have 5: "relayOffTime (selectionner 0 (ts ! 6) ?s1) = [ts ! 6 + 2000, 0, 0, 0, 0, 0, 0, 0]" .
  show ?thesis
    unfolding r using 1 2 3 4 5 by (intro conjI)
qed

theorem scenario_button_0_witness:
  "map (relais (recevoirEvenementsNextion (trameRecue 0 2 1 [10, 11, 12, 13, 14, 15, 16])
       (boot (\<lambda>_. 0xFF)))) antennes = [True, False, False, False, False, False, False, False] \<and>
   antenneSelectionnee (recevoirEvenementsNextion (trameRecue 0 2 1 [10, 11, 12, 13, 14, 15, 16])
       (boot (\<lambda>_. 0xFF))) = 0 \<and>
   eeprom (recevoirEvenementsNextion (trameRecue 0 2 1 [10, 11, 12, 13, 14, 15, 16])
       (boot (\<lambda>_. 0xFF))) 1 = 0 \<and>
   relayOffTime (recevoirEvenementsNextion (trameRecue 0 2 1 [10, 11, 12, 13, 14, 15, 16])
       (boot (\<lambda>_. 0xFF))) = [2016, 0, 0, 0, 0, 0, 0, 0]"
  using scenario_button_0 [of "boot (\<lambda>_. 0xFF)" "[10, 11, 12, 13, 14, 15, 16]"]
  by (simp add: boot_def)

section \<open>The relay pulse\<close>

text \<open>
  C6, on the code: a valid touch event for antenna 0 when \<open>millis()\<close> returns
  \<open>2^32 - 2000\<close> (0xFFFFF830), in the state left by \<open>setup\<close> with an erased EEPROM. The
  pulse should end 2000 ms later, when the clock reads 0; the relay is still energised after
  the scan at clock 0 and after a further scan at clock 5000. And for the same event when the
  clock reads \<open>2^32 - 1000\<close> (0xFFFFFC18), the scan one millisecond later de-energises the
  relay, inside the pulse.
\<close>

theorem pulse_broken_at_clock_wrap:
  "relais (gererTemporisations 0 (recevoirEvenementsNextion
       (trameRecue 0 2 1 [0xFFFFF82A, 0xFFFFF82B, 0xFFFFF82C, 0xFFFFF82D, 0xFFFFF82E, 0xFFFFF82F, 0xFFFFF830])
       (setup_ino (boot (\<lambda>_. 0xFF))))) 0 \<and>
   relais (gererTemporisations 5000 (gererTemporisations 0 (recevoirEvenementsNextion
       (trameRecue 0 2 1 [0xFFFFF82A, 0xFFFFF82B, 0xFFFFF82C, 0xFFFFF82D, 0xFFFFF82E, 0xFFFFF82F, 0xFFFFF830])
       (setup_ino (boot (\<lambda>_. 0xFF)))))) 0 \<and>
   \<not> relais (gererTemporisations 0xFFFFFC19 (recevoirEvenementsNextion
       (trameRecue 0 2 1 [0xFFFFFC12, 0xFFFFFC13, 0xFFFFFC14, 0xFFFFFC15, 0xFFFFFC16, 0xFFFFFC17, 0xFFFFFC18])
       (setup_ino (boot (\<lambda>_. 0xFF))))) 0"
proof -
  let ?S = "setup_ino (boot (\<lambda>_. 0xFF))"
  let ?ts = "[0xFFFFF82A, 0xFFFFF82B, 0xFFFFF82C, 0xFFFFF82D, 0xFFFFF82E, 0xFFFFF82F, 0xFFFFF830] :: u32 list"
  let ?ts' = "[0xFFFFFC12, 0xFFFFFC13, 0xFFFFFC14, 0xFFFFFC15, 0xFFFFFC16, 0xFFFFFC17, 0xFFFFFC18] :: u32 list"
  have z: "?ts ! 6 + 2000 = 0" by simp
  have 1: "relais (fold gererTemporisations [0] (recevoirEvenementsNextion
       (trameRecue 0 (FIRST_BTN_ID + 0) 1 ?ts) ?S)) 0"
    by (rule scans_after_selection_sentinel (2) [OF setup_erased _ _ z]) simp_all
  have 2: "relais (fold gererTemporisations [0, 5000] (recevoirEvenementsNextion
       (trameRecue 0 (FIRST_BTN_ID + 0) 1 ?ts) ?S)) 0"
    by (rule scans_after_selection_sentinel (2) [OF setup_erased _ _ z]) simp_all
  have "expired 0xFFFFFC19 (?ts' ! 6 + 2000)"
    by (simp add: expired_def word_le_nat_alt)
  then have 3: "\<not> relais (gererTemporisations 0xFFFFFC19 (recevoirEvenementsNextion
       (trameRecue 0 (FIRST_BTN_ID + 0) 1 ?ts') ?S)) 0"
    by (subst scan_after_selection [OF setup_erased]) simp_all
  show ?thesis
    using 1 2 3 by (simp add: FIRST_BTN_ID_def)
qed

section \<open>Touch events outside the window\<close>

text \<open>
  C7. A well-formed frame whose page is not 0, or whose component id is below \<open>FIRST_BTN_ID\<close>
  or at least \<open>FIRST_BTN_ID + 8\<close>, received with the decoder at write position 0, changes
  nothing but the decoder's window: the state afterwards is the state before with the frame
  in \<open>buffer\<close> (the write position is 0 again). Relay pins, the log of pin writes, the bytes
  sent to the display, deadlines, \<open>antenneSelectionnee\<close> and the EEPROM are the same.
\<close>

theorem invalid_event_ignored:
  assumes "pos s = 0" and "length (buffer s) = 7" and "length ts = 7"
    and "page \<noteq> 0 \<or> unat compId < unat FIRST_BTN_ID \<or> unat FIRST_BTN_ID + 8 \<le> unat compId"
  shows "recevoirEvenementsNextion (trameRecue page compId st ts) s = s\<lparr>buffer := trame page compId st\<rparr>"
  using assms(4) by (intro recevoir_ignored assms(1-3)) (simp add: NB_ANTENNES_def)

theorem invalid_event_ignored_witness:
  "recevoirEvenementsNextion (trameRecue 1 2 1 [10, 11, 12, 13, 14, 15, 16]) (boot (\<lambda>_. 0xFF)) =
     (boot (\<lambda>_. 0xFF))\<lparr>buffer := trame 1 2 1\<rparr> \<and>
   recevoirEvenementsNextion (trameRecue 0 1 1 [10, 11, 12, 13, 14, 15, 16]) (boot (\<lambda>_. 0xFF)) =
     (boot (\<lambda>_. 0xFF))\<lparr>buffer := trame 0 1 1\<rparr> \<and>
   recevoirEvenementsNextion (trameRecue 0 10 1 [10, 11, 12, 13, 14, 15, 16]) (boot (\<lambda>_. 0xFF)) =
     (boot (\<lambda>_. 0xFF))\<lparr>buffer := trame 0 10 1\<rparr>"
  using invalid_event_ignored [of "boot (\<lambda>_. 0xFF)" "[10, 11, 12, 13, 14, 15, 16]" 1 2 1]
    invalid_event_ignored [of "boot (\<lambda>_. 0xFF)" "[10, 11, 12, 13, 14, 15, 16]" 0 1 1]
    invalid_event_ignored [of "boot (\<lambda>_. 0xFF)" "[10, 11, 12, 13, 14, 15, 16]" 0 10 1]
  by (simp add: boot_def FIRST_BTN_ID_def)

section \<open>Startup\<close>

text \<open>
  C8. \<open>setup\<close> from the state at power-up, for any EEPROM content. The first eight pin writes
  are a LOW for each relay pin, and no HIGH is written at all; afterwards no relay is energised
  and every deadline is 0. When \<open>lireSelectionEEPROM\<close> yields an index \<open>k\<close> (not -1),
  \<open>antenneSelectionnee\<close> is \<open>k\<close>, \<open>k\<close> is below 8, and the display is sent the "off" command of
  every other button and then the "on" command of \<open>k\<close>. When it yields -1,
  \<open>antenneSelectionnee\<close> stays -1 and nothing is sent to the display.
\<close>

theorem startup_recovery:
  "take 8 (pinWrites (setup_ino (boot e))) = map (\<lambda>p. (p, False)) relayPins \<and>
   filter snd (pinWrites (setup_ino (boot e))) = [] \<and>
   map (relais (setup_ino (boot e))) antennes = replicate 8 False \<and>
   relayOffTime (setup_ino (boot e)) = replicate 8 0 \<and>
   (if lireSelectionEEPROM (boot e) = - 1
    then antenneSelectionnee (setup_ino (boot e)) = - 1 \<and> serial3 (setup_ino (boot e)) = []
    else antenneSelectionnee (setup_ino (boot e)) = lireSelectionEEPROM (boot e) \<and>
      lireSelectionEEPROM (boot e) < NB_ANTENNES \<and>
      serial3 (setup_ino (boot e)) =
        concat (map setBoutonOffBytes (filter (\<lambda>i. i \<noteq> lireSelectionEEPROM (boot e)) antennes)) @
        setBoutonOnBytes (lireSelectionEEPROM (boot e)))"
proof (cases "lireSelectionEEPROM (boot e) = - 1")
  case True
  note s = setup_absent [OF True]
  have "take 8 (pinWrites (setup_ino (boot e))) = map (\<lambda>p. (p, False)) relayPins"
    unfolding s by (simp add: first_writes) (simp add: relayPins_def)
  moreover have "filter snd (pinWrites (setup_ino (boot e))) = []"
    unfolding s by (simp add: filter_empty_conv)
  moreover have "relayOffTime (setup_ino (boot e)) = replicate 8 0"
    unfolding s by (simp add: boot_def)
  moreover have "antenneSelectionnee (setup_ino (boot e)) = - 1" "serial3 (setup_ino (boot e)) = []"
    unfolding s by (simp_all add: boot_def)
  ultimately show ?thesis
    using True by (simp add: setup_relais_map)
next
  case False
  with lire_cases [of "boot e"] have k: "lireSelectionEEPROM (boot e) < 8" by blast
  note s = setup_valid [OF k]
  have "take 8 (pinWrites (setup_ino (boot e))) = map (\<lambda>p. (p, False)) relayPins"
    unfolding s by (simp add: first_writes length_antennes) (simp add: relayPins_def)
  moreover have "filter snd (pinWrites (setup_ino (boot e))) = []"
    unfolding s by (simp add: filter_empty_conv)
  moreover have "relayOffTime (setup_ino (boot e)) = replicate 8 0"
    unfolding s by (simp add: boot_def)
  moreover have "antenneSelectionnee (setup_ino (boot e)) = lireSelectionEEPROM (boot e)"
    "serial3 (setup_ino (boot e)) =
        concat (map setBoutonOffBytes (filter (\<lambda>i. i \<noteq> lireSelectionEEPROM (boot e)) antennes)) @
        setBoutonOnBytes (lireSelectionEEPROM (boot e))"
    unfolding s by (simp_all add: commandesSelection_def)
  ultimately show ?thesis
    using False k by (simp add: setup_relais_map NB_ANTENNES_def)
qed

theorem startup_recovery_witness:
  "lireSelectionEEPROM (boot (\<lambda>a. if a = 0 then 0xA5 else 3)) = 3 \<and>
   antenneSelectionnee (setup_ino (boot (\<lambda>a. if a = 0 then 0xA5 else 3))) = 3 \<and>
   relayOffTime (setup_ino (boot (\<lambda>a. if a = 0 then 0xA5 else 3))) = replicate 8 0 \<and>
   map (relais (setup_ino (boot (\<lambda>a. if a = 0 then 0xA5 else 3)))) antennes = replicate 8 False \<and>
   serial3 (setup_ino (boot (\<lambda>a. if a = 0 then 0xA5 else 3))) =
     ''bt0.val=0'' @ terminateur @ ''bt1.val=0'' @ terminateur @ ''bt2.val=0'' @ terminateur @
     ''bt4.val=0'' @ terminateur @ ''bt5.val=0'' @ terminateur @ ''bt6.val=0'' @ terminateur @
     ''bt7.val=0'' @ terminateur @ ''bt3.val=1'' @ terminateur \<and>
   lireSelectionEEPROM (boot (\<lambda>_. 0xFF)) = - 1 \<and>
   antenneSelectionnee (setup_ino (boot (\<lambda>_. 0xFF))) = - 1 \<and>
   serial3 (setup_ino (boot (\<lambda>_. 0xFF))) = []"
proof -
  have 1: "lireSelectionEEPROM (boot (\<lambda>a. if a = 0 then 0xA5 else 3)) = 3"
    by (simp add: lireSelectionEEPROM_def EEPROM_read_def EEPROM_MAGIC_ADDR_def
        EEPROM_SELECTED_ADDR_def EEPROM_MAGIC_VALUE_def NB_ANTENNES_def boot_def word_le_nat_alt)
  have 2: "lireSelectionEEPROM (boot (\<lambda>_. 0xFF)) = - 1"
    by (simp add: lireSelectionEEPROM_def EEPROM_read_def EEPROM_MAGIC_ADDR_def
        EEPROM_MAGIC_VALUE_def boot_def)
  show ?thesis
    using startup_recovery [of "\<lambda>a. if a = 0 then 0xA5 else 3"] startup_recovery [of "\<lambda>_. 0xFF"]
    unfolding 1 2
    by (simp add: antennes_eq setBoutonOffBytes_def setBoutonOnBytes_def printNumber_digit
        char_of_digits terminateur_def)
qed

section \<open>The clock wraps\<close>

text \<open>
  C9. After a valid touch event for antenna \<open>k\<close> whose clock is \<open>T\<close> (the clock of the last
  byte of the frame), the scan at clock \<open>now\<close> leaves the relay of \<open>k\<close> energised exactly when
  its guard is false, and the guard compares the stored value \<open>T + 2000\<close> (modulo \<open>2^32\<close>)
  with \<open>now\<close>, not the time elapsed. So: when \<open>T\<close> is \<open>2^32 - 2000\<close> the stored deadline is 0,
  the value that means "no deadline", and the relay is still energised after any sequence of
  scans at any clocks; when \<open>T\<close> is above \<open>2^32 - 2000\<close> the stored deadline has wrapped to a
  small value, and a scan at any clock \<open>now\<close> from \<open>T\<close> on (before the clock itself wraps, so
  less than 2000 ms later) already switches the relay off.
\<close>

theorem deadline_sentinel_and_wrap:
  assumes "pos s = 0" and "length (buffer s) = 7" and "length (relayOffTime s) = 8"
    and "length ts = 7" and "k < NB_ANTENNES"
  shows "(relais (gererTemporisations now
            (recevoirEvenementsNextion (trameRecue 0 (FIRST_BTN_ID + k) st ts) s)) k \<longleftrightarrow>
          \<not> (ts ! 6 + 2000 \<noteq> 0 \<and> ts ! 6 + 2000 \<le> now)) \<and>
         (ts ! 6 = 0xFFFFF830 \<longrightarrow>
            relayOffTime (recevoirEvenementsNextion (trameRecue 0 (FIRST_BTN_ID + k) st ts) s) ! unat k = 0 \<and>
            relais (fold gererTemporisations nows
              (recevoirEvenementsNextion (trameRecue 0 (FIRST_BTN_ID + k) st ts) s)) k) \<and>
         (0xFFFFF830 < ts ! 6 \<and> ts ! 6 \<le> now \<longrightarrow>
            unat now - unat (ts ! 6) < 2000 \<and>
            \<not> relais (gererTemporisations now
              (recevoirEvenementsNextion (trameRecue 0 (FIRST_BTN_ID + k) st ts) s)) k)"
proof -
  have k: "k < 8" using assms(5) by (simp add: NB_ANTENNES_def)
  note g = scan_after_selection [OF assms(1-4) k]
  have 1: "relais (gererTemporisations now
            (recevoirEvenementsNextion (trameRecue 0 (FIRST_BTN_ID + k) st ts) s)) k \<longleftrightarrow>
          \<not> (ts ! 6 + 2000 \<noteq> 0 \<and> ts ! 6 + 2000 \<le> now)"
    unfolding g by (simp add: expired_def)
  have 2: "relayOffTime (recevoirEvenementsNextion (trameRecue 0 (FIRST_BTN_ID + k) st ts) s) ! unat k = 0 \<and>
            relais (fold gererTemporisations nows
              (recevoirEvenementsNextion (trameRecue 0 (FIRST_BTN_ID + k) st ts) s)) k"
    if "ts ! 6 = 0xFFFFF830"
  proof -
    have "ts ! 6 + 2000 = 0" unfolding that by simp
    from scans_after_selection_sentinel [OF assms(1-4) k this] show ?thesis by simp
  qed
  have 3: "unat now - unat (ts ! 6) < 2000 \<and> \<not> relais (gererTemporisations now
              (recevoirEvenementsNextion (trameRecue 0 (FIRST_BTN_ID + k) st ts) s)) k"
    if w: "0xFFFFF830 < ts ! 6" "ts ! 6 \<le> now"
  proof -
    have "4294965296 < unat (ts ! 6)" using w(1) by (simp add: word_less_nat_alt)
    moreover have "unat now < 2 ^ 32" using unsigned_less [of now] by simp
    ultimately have a: "unat now - unat (ts ! 6) < 2000" by simp
    have "expired now (ts ! 6 + 2000)" using w by (rule wrapped_deadline)
    then show ?thesis unfolding g using a by simp
  qed
  show ?thesis using 1 2 3 by blast
qed

theorem deadline_sentinel_and_wrap_witness:
  "relayOffTime (recevoirEvenementsNextion
       (trameRecue 0 2 1 [0xFFFFF82A, 0xFFFFF82B, 0xFFFFF82C, 0xFFFFF82D, 0xFFFFF82E, 0xFFFFF82F, 0xFFFFF830])
       (boot (\<lambda>_. 0xFF))) ! 0 = 0 \<and>
   relais (fold gererTemporisations [0, 1, 5000, 0xFFFFFFFF] (recevoirEvenementsNextion
       (trameRecue 0 2 1 [0xFFFFF82A, 0xFFFFF82B, 0xFFFFF82C, 0xFFFFF82D, 0xFFFFF82E, 0xFFFFF82F, 0xFFFFF830])
       (boot (\<lambda>_. 0xFF)))) 0 \<and>
   \<not> relais (gererTemporisations 0xFFFFFC19 (recevoirEvenementsNextion
       (trameRecue 0 2 1 [0xFFFFFC12, 0xFFFFFC13, 0xFFFFFC14, 0xFFFFFC15, 0xFFFFFC16, 0xFFFFFC17, 0xFFFFFC18])
       (boot (\<lambda>_. 0xFF)))) 0"
  using deadline_sentinel_and_wrap [where s = "boot (\<lambda>_. 0xFF)" and k = 0 and st = 1
      and ts = "[0xFFFFF82A, 0xFFFFF82B, 0xFFFFF82C, 0xFFFFF82D, 0xFFFFF82E, 0xFFFFF82F, 0xFFFFF830]"
      and nows = "[0, 1, 5000, 0xFFFFFFFF]"]
    deadline_sentinel_and_wrap [where s = "boot (\<lambda>_. 0xFF)" and k = 0 and st = 1
      and ts = "[0xFFFFFC12, 0xFFFFFC13, 0xFFFFFC14, 0xFFFFFC15, 0xFFFFFC16, 0xFFFFFC17, 0xFFFFFC18]"
      and now = "0xFFFFFC19"]
  by (simp add: boot_def NB_ANTENNES_def FIRST_BTN_ID_def word_le_nat_alt word_less_nat_alt)

section \<open>Selecting the selected antenna again\<close>



end
